theory Spec2Isabelle
  imports Complex_Main "HOL-Library.Multiset" "HOL-Library.AList"
begin

section \<open>Cost estimation for language-model usage: the table builder and the cost attributor\<close>

text \<open>
  The development embeds the two variants of \<open>make_df_cost\<close> (the nested loops of
  \<open>src/cost_model.py\<close> and the meshgrid version of \<open>src/functions/cost_model.py\<close>) and
  \<open>calculate_total_cost\<close> (the same code in both files).

  Numbers: Python's \<open>int\<close> and \<open>float\<close> values are embedded as \<open>real\<close>, and an integer and
  the float of the same value (\<open>800\<close> and \<open>800.0\<close>) are the same number here. The
  embedding is exact where the program's arithmetic is: on integers of moderate size and
  on binary fractions. It does not cover the rounding of float64 operations, and it has
  the wrap-around of numpy's int64 arrays only where it is written out (\<open>int64\<close>).
\<close>

subsection \<open>Errors\<close>

text \<open>
  The exceptions the library calls of the source raise: \<open>KeyError\<close> for a column label
  that is not in a table, \<open>ValueError\<close> for \<open>pd.concat\<close> of no objects, for operands
  that do not broadcast and for a column whose length is not the length of the index.
\<close>

datatype error = KeyError | ValueError

subsection \<open>Scenario rows and the table builder\<close>

text \<open>
  A scenario table is the list of its rows, in index order; a row has the seven columns
  the builder produces. \<open>reset_index(drop=True)\<close> renumbers the index and changes no
  value, so the position in the list is the index.
\<close>

record scenario_row =
  employees :: real
  calls :: real
  avg_words_per_q :: real
  avg_words_per_a :: real
  tokens_per_word :: real
  m_tokens_sent :: real
  m_tokens_received :: real

text \<open>
  \<open>src/cost_model.py\<close>, the body of the innermost loop: the one-row table \<open>temp_df\<close> with
  its two derived columns. The factor \<open>800\<close> is the source's. Python multiplies the
  integers exactly and rounds the float operations; the fields here are the exact values,
  which are the program's wherever no operation rounds.
\<close>

definition temp_df :: "real \<Rightarrow> real \<Rightarrow> real \<Rightarrow> real \<Rightarrow> real \<Rightarrow> scenario_row" where
  "temp_df emp call q a tpw =
     \<lparr> employees = emp, calls = call, avg_words_per_q = q, avg_words_per_a = a,
       tokens_per_word = tpw,
       m_tokens_sent = ((800 * call) * q * tpw) / 10 ^ 6,
       m_tokens_received = ((800 * call) * a * tpw) / 10 ^ 6 \<rparr>"

text \<open>\<open>pd.concat\<close> of a list of one-row tables: it raises \<open>ValueError\<close> on the empty list.\<close>

definition pd_concat :: "'a list \<Rightarrow> error + 'a list" where
  "pd_concat df_list = (case df_list of [] \<Rightarrow> Inl ValueError | _ \<Rightarrow> Inr df_list)"

text \<open>
  \<open>src/cost_model.py\<close>, \<open>make_df_cost\<close>: three nested loops append one row for every
  \<open>call\<close>, \<open>q\<close> and \<open>a\<close>; the rows are concatenated.
\<close>

definition df_list :: "real \<Rightarrow> real list \<Rightarrow> real list \<Rightarrow> real list \<Rightarrow> real \<Rightarrow> scenario_row list" where
  "df_list emp call_list q_length a_length tpw =
     [temp_df emp call q a tpw. call \<leftarrow> call_list, q \<leftarrow> q_length, a \<leftarrow> a_length]"

definition make_df_cost ::
  "real \<Rightarrow> real list \<Rightarrow> real list \<Rightarrow> real list \<Rightarrow> real \<Rightarrow> error + scenario_row list" where
  "make_df_cost emp call_list q_length a_length tpw =
     pd_concat (df_list emp call_list q_length a_length tpw)"

text \<open>
  \<open>src/functions/cost_model.py\<close>, \<open>make_df_cost\<close>. \<open>np.meshgrid\<close> of five arrays (default
  indexing \<open>xy\<close>) returns five arrays of shape \<open>(N2, N1, N3, N4, N5)\<close>, the \<open>k\<close>-th holding
  the \<open>k\<close>-th input along its own axis. Stacked and transposed, the entry at
  \<open>[j5, j4, j3, j1, j2, k]\<close> is element \<open>j\<^sub>k\<close> of input \<open>k\<close>, and \<open>reshape(-1, 5)\<close> lists the
  rows with \<open>j5\<close> slowest and \<open>j2\<close> fastest: \<open>tokens_per_word\<close> is the outermost loop, then
  \<open>a_length\<close>, \<open>q_length\<close>, \<open>employees\<close>, and \<open>calls\<close> the innermost. An empty input gives
  an array of shape \<open>(0, 5)\<close>: no row and no exception.
\<close>

definition combinations ::
  "real list \<Rightarrow> real list \<Rightarrow> real list \<Rightarrow> real list \<Rightarrow> real list
     \<Rightarrow> (real \<times> real \<times> real \<times> real \<times> real) list" where
  "combinations emp_list call_list q_length a_length tpw_list =
     [(e, c, q, a, t). t \<leftarrow> tpw_list, a \<leftarrow> a_length, q \<leftarrow> q_length, e \<leftarrow> emp_list,
        c \<leftarrow> call_list]"

text \<open>
  The table of the five parameter columns, then the two derived columns, row by row. numpy
  computes them in the dtype of the array, int64 (which wraps beyond \<open>2\<^sup>6\<^sup>3\<close>) or float64
  (which rounds); the fields here are the exact values, which are the program's wherever no
  operation wraps or rounds.
\<close>

fun derive_tokens :: "real \<times> real \<times> real \<times> real \<times> real \<Rightarrow> scenario_row" where
  "derive_tokens (e, c, q, a, t) =
     \<lparr> employees = e, calls = c, avg_words_per_q = q, avg_words_per_a = a,
       tokens_per_word = t,
       m_tokens_sent = ((e * c) * q * t) / 1000000,
       m_tokens_received = ((e * c) * a * t) / 1000000 \<rparr>"

definition functions_make_df_cost ::
  "real list \<Rightarrow> real list \<Rightarrow> real list \<Rightarrow> real list \<Rightarrow> real list \<Rightarrow> scenario_row list" where
  "functions_make_df_cost emp_list call_list q_length a_length tpw_list =
     map derive_tokens (combinations emp_list call_list q_length a_length tpw_list)"

text \<open>
  On arrays of integers numpy computes the numerator of lines 61 and 62,
  \<open>(df['employees'] * df['calls']) * df[words] * df['tokens_per_word']\<close>, in int64: every
  product is reduced to the signed 64-bit range, without an exception.
\<close>

definition int64 :: "int \<Rightarrow> int" where
  "int64 n = (n + 2 ^ 63) mod 2 ^ 64 - 2 ^ 63"

definition tokens_int64 :: "int \<Rightarrow> int \<Rightarrow> int \<Rightarrow> int \<Rightarrow> int" where
  "tokens_int64 e c w t = int64 (int64 (int64 (e * c) * w) * t)"

text \<open>The parameter values of a row, and the token volume the specification gives them.\<close>

definition params :: "scenario_row \<Rightarrow> real \<times> real \<times> real \<times> real \<times> real" where
  "params r = (employees r, calls r, avg_words_per_q r, avg_words_per_a r, tokens_per_word r)"

definition spec_tokens :: "scenario_row \<Rightarrow> real \<Rightarrow> real" where
  "spec_tokens r w = (employees r * calls r * w * tokens_per_word r) / 1000000"

text \<open>
  The specification's side of the table: the cartesian product of the five input
  collections, a scalar standing for the collection of its one value.
\<close>

definition cartesian ::
  "real list \<Rightarrow> real list \<Rightarrow> real list \<Rightarrow> real list \<Rightarrow> real list
     \<Rightarrow> (real \<times> real \<times> real \<times> real \<times> real) list" where
  "cartesian emp_list call_list q_length a_length tpw_list =
     List.product emp_list (List.product call_list
       (List.product q_length (List.product a_length tpw_list)))"

subsection \<open>Tables of columns\<close>

text \<open>
  \<open>calculate_total_cost\<close> works column by column, so its tables are kept as a DataFrame
  keeps them: the length of the index and the columns in order, each a label with its
  values. The scenario table has numeric columns. A well-formed table has distinct labels
  and columns as long as the index.
\<close>

record frame =
  index_len :: nat
  cols :: "(string \<times> real list) list"

definition wf_frame :: "frame \<Rightarrow> bool" where
  "wf_frame df \<longleftrightarrow>
     distinct (map fst (cols df)) \<and> list_all (\<lambda>(c, v). length v = index_len df) (cols df)"

text \<open>
  The pricing table \<open>df_llms\<close>: the identifier column, which the source reads under the
  label \<open>modell\<close> (absent when the table has no column of that label), and the numeric
  rate columns, which \<open>cost_sent\<close> and \<open>cost_rec\<close> name. The identifier column holds strings
  and is not itself a rate column.
\<close>

record llm_frame =
  modell :: "string list option"
  rate_cols :: "(string \<times> real list) list"

definition wf_llm :: "llm_frame \<Rightarrow> bool" where
  "wf_llm lf \<longleftrightarrow>
     distinct (map fst (rate_cols lf)) \<and>
     (case modell lf of None \<Rightarrow> True
      | Some ms \<Rightarrow> list_all (\<lambda>(c, v). length v = length ms) (rate_cols lf))"

text \<open>
  The number of entries of the pricing table whose identifier is \<open>model\<close>.
\<close>

definition n_matching :: "llm_frame \<Rightarrow> string \<Rightarrow> nat" where
  "n_matching lf model = (case modell lf of None \<Rightarrow> 0 | Some ms \<Rightarrow> count_list ms model)"

text \<open>
  \<open>df[c]\<close> raises \<open>KeyError\<close> for a label that is not a column. \<open>df[c] = v\<close> with an array
  \<open>v\<close> raises \<open>ValueError\<close> when \<open>v\<close> is not as long as the index; otherwise it replaces
  the column of that label where it stands, or appends a new column. (On an empty index
  pandas would take a non-empty \<open>v\<close> as the new index instead; the arrays assigned in
  \<open>calculate_total_cost\<close> are products with a column of the table, which are empty when
  the index is: see \<open>np_mul_empty\<close>.)
\<close>

definition getitem :: "frame \<Rightarrow> string \<Rightarrow> error + real list" where
  "getitem df c = (case map_of (cols df) c of None \<Rightarrow> Inl KeyError | Some v \<Rightarrow> Inr v)"

definition setitem :: "frame \<Rightarrow> string \<Rightarrow> real list \<Rightarrow> error + frame" where
  "setitem df c v =
     (if length v = index_len df then Inr (df\<lparr>cols := AList.update c v (cols df)\<rparr>)
      else Inl ValueError)"

text \<open>
  \<open>df_llms.loc[df_llms['modell'] == model, c]\<close>: the values of column \<open>c\<close> in the rows
  whose identifier is \<open>model\<close>, in order; \<open>KeyError\<close> when either label is missing.
\<close>

definition loc_modell :: "llm_frame \<Rightarrow> string \<Rightarrow> string \<Rightarrow> error + real list" where
  "loc_modell lf model c =
     (case modell lf of None \<Rightarrow> Inl KeyError
      | Some ms \<Rightarrow>
          (case map_of (rate_cols lf) c of None \<Rightarrow> Inl KeyError
           | Some v \<Rightarrow> Inr (map snd (filter (\<lambda>(k, x). k = model) (zip ms v)))))"

text \<open>
  The product of two one-dimensional arrays under numpy's broadcasting: elementwise for
  equal lengths, an array of length one is stretched to the other's length (also to
  length zero), any other pair of lengths raises \<open>ValueError\<close>.
\<close>

definition np_mul :: "real list \<Rightarrow> real list \<Rightarrow> error + real list" where
  "np_mul xs ys =
     (if length xs = length ys then Inr (map2 (*) xs ys)
      else if length xs = 1 then Inr (map ((*) (hd xs)) ys)
      else if length ys = 1 then Inr (map (\<lambda>x. x * hd ys) xs)
      else Inl ValueError)"

text \<open>
  The three column labels the source formats from a model identifier.
\<close>

definition question_col :: "string \<Rightarrow> string" where
  "question_col model = ''Question cost '' @ model @ '' (USD)''"

definition answer_col :: "string \<Rightarrow> string" where
  "answer_col model = ''Answer cost '' @ model @ '' (USD)''"

definition total_col :: "string \<Rightarrow> string" where
  "total_col model = ''Total cost '' @ model @ '' (USD)''"

definition generated :: "string list \<Rightarrow> string list" where
  "generated models = concat (map (\<lambda>m. [question_col m, answer_col m, total_col m]) models)"

subsection \<open>The cost attributor\<close>

text \<open>
  The first two statements of the loop body have one shape,
  \<open>df_costs[target] = df_costs[tokens_col].values * np.array(df_llms.loc[..., rate])\<close>,
  evaluated left to right; the third adds the two new columns.
\<close>

definition set_cost :: "llm_frame \<Rightarrow> frame \<Rightarrow> string \<Rightarrow> string \<Rightarrow> string \<Rightarrow> string \<Rightarrow> error + frame" where
  "set_cost lf df target tokens_col model rate =
     (case getitem df tokens_col of Inl e \<Rightarrow> Inl e
      | Inr toks \<Rightarrow>
          (case loc_modell lf model rate of Inl e \<Rightarrow> Inl e
           | Inr r \<Rightarrow>
               (case np_mul toks r of Inl e \<Rightarrow> Inl e
                | Inr v \<Rightarrow> setitem df target v)))"

definition set_total :: "frame \<Rightarrow> string \<Rightarrow> error + frame" where
  "set_total df model =
     (case getitem df (question_col model) of Inl e \<Rightarrow> Inl e
      | Inr q \<Rightarrow>
          (case getitem df (answer_col model) of Inl e \<Rightarrow> Inl e
           | Inr a \<Rightarrow> setitem df (total_col model) (map2 (+) q a)))"

text \<open>
  The loop over \<open>models\<close>, passing on the table it mutates. An exception ends the loop
  with the table as it then is.
\<close>

fun cost_loop ::
  "llm_frame \<Rightarrow> string \<Rightarrow> string \<Rightarrow> string \<Rightarrow> string \<Rightarrow> frame \<Rightarrow> string list
     \<Rightarrow> error option \<times> frame" where
  "cost_loop lf cost_sent cost_rec sent_col rec_col df [] = (None, df)"
| "cost_loop lf cost_sent cost_rec sent_col rec_col df (model # models) =
     (case set_cost lf df (question_col model) sent_col model cost_sent of
        Inl e \<Rightarrow> (Some e, df)
      | Inr df1 \<Rightarrow>
          (case set_cost lf df1 (answer_col model) rec_col model cost_rec of
             Inl e \<Rightarrow> (Some e, df1)
           | Inr df2 \<Rightarrow>
               (case set_total df2 model of
                  Inl e \<Rightarrow> (Some e, df2)
                | Inr df3 \<Rightarrow> cost_loop lf cost_sent cost_rec sent_col rec_col df3 models)))"

text \<open>
  The caller's tables are objects that the function could mutate, so the function runs on
  a store: the tables live at addresses (positions in the store), the arguments
  \<open>df_costs\<close> and \<open>df_llms\<close> are addresses, and \<open>.copy()\<close> allocates a new object at the
  next free address. The function rebinds its two local names to the copies, mutates the
  copy of \<open>df_costs\<close> in the loop and returns its address, or raises.
\<close>

record heap =
  frames :: "frame list"
  llms :: "llm_frame list"

definition copy_frame :: "heap \<Rightarrow> nat \<Rightarrow> nat \<times> heap" where
  "copy_frame h r = (length (frames h), h\<lparr>frames := frames h @ [frames h ! r]\<rparr>)"

definition copy_llm :: "heap \<Rightarrow> nat \<Rightarrow> nat \<times> heap" where
  "copy_llm h r = (length (llms h), h\<lparr>llms := llms h @ [llms h ! r]\<rparr>)"

definition calculate_total_cost ::
  "heap \<Rightarrow> nat \<Rightarrow> nat \<Rightarrow> string list \<Rightarrow> string \<Rightarrow> string \<Rightarrow> string \<Rightarrow> string
     \<Rightarrow> (error + nat) \<times> heap" where
  "calculate_total_cost h df_costs df_llms models cost_sent cost_rec sent_col rec_col =
     (let (costs', h1) = copy_frame h df_costs;
          (llms', h2) = copy_llm h1 df_llms;
          (exc, df) = cost_loop (llms h2 ! llms') cost_sent cost_rec sent_col rec_col
                        (frames h2 ! costs') models;
          h3 = h2\<lparr>frames := (frames h2)[costs' := df]\<rparr>
      in (case exc of Some e \<Rightarrow> (Inl e, h3) | None \<Rightarrow> (Inr costs', h3)))"

subsection \<open>Example tables\<close>

text \<open>
  The specification's example (one row, model \<open>A\<close>); a pricing table with two entries for
  \<open>A\<close> and a scenario table of two rows; and three tables priced at the rates 0.5 and
  0.25, whose products are exact in binary floating point as well: one with the default
  token columns, one whose received-token column has the label of the question cost of
  \<open>A\<close>, and one with a column that already has the label of the total cost of \<open>A\<close>.
\<close>

definition pricing_A :: llm_frame where
  "pricing_A = \<lparr> modell = Some [''A''],
                 rate_cols = [(''cost_sent'', [0.01]), (''cost_rec'', [0.015])] \<rparr>"

definition example_heap :: heap where
  "example_heap =
     \<lparr> frames = [\<lparr> index_len = 1,
                   cols = [(''m_tokens_sent'', [2.66]), (''m_tokens_received'', [5.32])] \<rparr>],
       llms = [pricing_A] \<rparr>"

definition duplicate_heap :: heap where
  "duplicate_heap =
     \<lparr> frames = [\<lparr> index_len = 2,
                   cols = [(''m_tokens_sent'', [1, 2]), (''m_tokens_received'', [3, 4])] \<rparr>],
       llms = [\<lparr> modell = Some [''A'', ''A''],
                 rate_cols = [(''cost_sent'', [0.01, 0.02]), (''cost_rec'', [0.015, 0.025])] \<rparr>] \<rparr>"

definition pricing_half :: llm_frame where
  "pricing_half = \<lparr> modell = Some [''A''],
                    rate_cols = [(''cost_sent'', [0.5]), (''cost_rec'', [0.25])] \<rparr>"

definition dyadic_heap :: heap where
  "dyadic_heap =
     \<lparr> frames = [\<lparr> index_len = 1,
                   cols = [(''m_tokens_sent'', [2]), (''m_tokens_received'', [4])] \<rparr>],
       llms = [pricing_half] \<rparr>"

definition relabelled_heap :: heap where
  "relabelled_heap =
     \<lparr> frames = [\<lparr> index_len = 1,
                   cols = [(''m_tokens_sent'', [2]), (''Question cost A (USD)'', [3])] \<rparr>],
       llms = [pricing_half] \<rparr>"

definition collision_heap :: heap where
  "collision_heap =
     \<lparr> frames = [\<lparr> index_len = 1,
                   cols = [(''m_tokens_sent'', [2]), (''m_tokens_received'', [4]),
                           (''Total cost A (USD)'', [99])] \<rparr>],
       llms = [pricing_half] \<rparr>"

section \<open>Theorems\<close>

subsection \<open>The token formula\<close>

lemma functions_make_df_cost_formula:
  "r \<in> set (functions_make_df_cost es cs qs al ts) \<Longrightarrow>
     m_tokens_sent r = spec_tokens r (avg_words_per_q r) \<and>
     m_tokens_received r = spec_tokens r (avg_words_per_a r)"
  by (auto simp: functions_make_df_cost_def spec_tokens_def)

text \<open>
  C1. Each row's token volumes are
  \<open>(employees \<times> calls \<times> words \<times> tokens_per_word) / 1000000\<close> with the row's own
  \<open>employees\<close> value. The meshgrid variant computes this
  (\<open>functions_make_df_cost_formula\<close>); the loop variant multiplies by 800 whatever
  \<open>employees\<close> is: with 400 employees, 50 calls, 50 and 100 words and one token per word
  it returns the row of 400 employees with 2 and 4 million tokens, where the formula
  gives 1 and 2.
\<close>

theorem make_df_cost_ignores_employees:
  "make_df_cost 400 [50] [50] [100] 1 =
     Inr [\<lparr> employees = 400, calls = 50, avg_words_per_q = 50, avg_words_per_a = 100,
            tokens_per_word = 1, m_tokens_sent = 2, m_tokens_received = 4 \<rparr>] \<and>
   spec_tokens \<lparr> employees = 400, calls = 50, avg_words_per_q = 50, avg_words_per_a = 100,
            tokens_per_word = 1, m_tokens_sent = 2, m_tokens_received = 4 \<rparr> 50 = 1"
  by (simp add: make_df_cost_def df_list_def pd_concat_def temp_df_def spec_tokens_def)

subsection \<open>Counting rows\<close>

lemma count_product:
  "count_list (List.product xs ys) (a, b) = count_list xs a * count_list ys b"
proof -
  have "count_list (map (Pair x) ys) (a, b) = (if x = a then count_list ys b else 0)" for x
    by (induction ys) auto
  then show ?thesis by (induction xs) auto
qed

lemma count_cartesian:
  "count_list (cartesian es cs qs al ts) (e, c, q, a, t) =
     count_list es e * count_list cs c * count_list qs q * count_list al a * count_list ts t"
  by (simp add: cartesian_def count_product)

lemma count_combinations:
  "count_list (combinations es cs qs al ts) (e, c, q, a, t) =
     count_list es e * count_list cs c * count_list qs q * count_list al a * count_list ts t"
proof -
  have inner: "count_list (map (\<lambda>c'. (e', c', q', a', t')) cs) (e, c, q, a, t) =
      (if e' = e \<and> q' = q \<and> a' = a \<and> t' = t then count_list cs c else 0)" for e' q' a' t'
    by (induction cs) auto
  have emp: "count_list (concat (map (\<lambda>e'. map (\<lambda>c'. (e', c', q', a', t')) cs) es))
        (e, c, q, a, t) =
      (if q' = q \<and> a' = a \<and> t' = t then count_list es e * count_list cs c else 0)" for q' a' t'
    by (induction es) (auto simp: inner)
  have qlen: "count_list (concat (map (\<lambda>q'. concat (map (\<lambda>e'.
        map (\<lambda>c'. (e', c', q', a', t')) cs) es)) qs)) (e, c, q, a, t) =
      (if a' = a \<and> t' = t then count_list qs q * (count_list es e * count_list cs c) else 0)"
    for a' t'
    by (induction qs) (auto simp: emp)
  have alen: "count_list (concat (map (\<lambda>a'. concat (map (\<lambda>q'. concat (map (\<lambda>e'.
        map (\<lambda>c'. (e', c', q', a', t')) cs) es)) qs)) al)) (e, c, q, a, t) =
      (if t' = t then count_list al a * (count_list qs q * (count_list es e * count_list cs c))
       else 0)" for t'
    by (induction al) (auto simp: qlen)
  have "count_list (concat (map (\<lambda>t'. concat (map (\<lambda>a'. concat (map (\<lambda>q'. concat (map (\<lambda>e'.
        map (\<lambda>c'. (e', c', q', a', t')) cs) es)) qs)) al)) ts)) (e, c, q, a, t) =
      count_list ts t * (count_list al a * (count_list qs q * (count_list es e * count_list cs c)))"
    by (induction ts) (auto simp: alen)
  then show ?thesis unfolding combinations_def by simp
qed

lemma mset_combinations:
  "mset (combinations es cs qs al ts) = mset (cartesian es cs qs al ts)"
proof (rule multiset_eqI)
  fix p :: "real \<times> real \<times> real \<times> real \<times> real"
  obtain e c q a t where p: "p = (e, c, q, a, t)" by (cases p) auto
  show "count (mset (combinations es cs qs al ts)) p = count (mset (cartesian es cs qs al ts)) p"
    by (simp add: p count_mset count_combinations count_cartesian)
qed

lemma count_distinct: "distinct xs \<Longrightarrow> x \<in> set xs \<Longrightarrow> count_list xs x = 1"
  by (metis count_mset distinct_count_atmost_1)

lemma distinct_cartesian:
  "distinct es \<Longrightarrow> distinct cs \<Longrightarrow> distinct qs \<Longrightarrow> distinct al \<Longrightarrow> distinct ts \<Longrightarrow>
     distinct (cartesian es cs qs al ts)"
  by (simp add: cartesian_def distinct_product)

lemma length_cartesian:
  "length (cartesian es cs qs al ts) =
     length es * length cs * length qs * length al * length ts"
  by (simp add: cartesian_def)

lemma params_derive_tokens: "params (derive_tokens p) = p"
  by (cases p) (simp add: params_def)

lemma params_temp_df: "params (temp_df e c q a t) = (e, c, q, a, t)"
  by (simp add: params_def temp_df_def)

lemma map_params_df_list: "map params (df_list e cs qs al t) = cartesian [e] cs qs al [t]"
  unfolding df_list_def cartesian_def
  by (simp add: List.product_concat_map map_concat comp_def params_temp_df)

lemma map_params_functions:
  "map params (functions_make_df_cost es cs qs al ts) = combinations es cs qs al ts"
  by (simp add: functions_make_df_cost_def comp_def params_derive_tokens)

lemma length_df_list: "length (df_list e cs qs al t) = length cs * length qs * length al"
  using arg_cong [OF map_params_df_list, of length e cs qs al t]
  by (simp add: length_cartesian)

lemma make_df_cost_nonempty:
  assumes "cs \<noteq> []" "qs \<noteq> []" "al \<noteq> []"
  shows "make_df_cost e cs qs al t = Inr (df_list e cs qs al t)"
proof -
  have "length (df_list e cs qs al t) \<noteq> 0"
    using assms by (simp add: length_df_list)
  then show ?thesis
    by (simp add: make_df_cost_def pd_concat_def split: list.splits)
qed

lemma make_df_cost_empty:
  assumes "cs = [] \<or> qs = [] \<or> al = []"
  shows "make_df_cost e cs qs al t = Inl ValueError"
proof -
  have "length (df_list e cs qs al t) = 0"
    using assms by (auto simp: length_df_list)
  then show ?thesis
    by (simp add: make_df_cost_def pd_concat_def)
qed

subsection \<open>One row per combination\<close>

text \<open>
  C2 (as amended). For non-empty \<open>calls\<close>, \<open>q_length\<close> and \<open>a_length\<close> the loop variant
  returns a table of \<open>1 \<times> c \<times> q \<times> a \<times> 1\<close> rows, and the meshgrid variant one of
  \<open>e \<times> c \<times> q \<times> a \<times> t\<close> rows. In both, the parameter values of the rows are, as a
  multiset, the cartesian product of the input collections: a tuple is the parameter
  values of as many rows as there are ways to draw it. When no input collection repeats a
  value, every tuple of the product is the parameter values of exactly one row.
\<close>

theorem make_df_cost_row_per_tuple:
  assumes "cs \<noteq> []" "qs \<noteq> []" "al \<noteq> []"
  shows "(\<exists>rows. make_df_cost e cs qs al t = Inr rows \<and>
            length rows = 1 * length cs * length qs * length al * 1 \<and>
            mset (map params rows) = mset (cartesian [e] cs qs al [t]) \<and>
            (distinct cs \<and> distinct qs \<and> distinct al \<longrightarrow>
               (\<forall>p \<in> set (cartesian [e] cs qs al [t]). count_list (map params rows) p = 1))) \<and>
         length (functions_make_df_cost es cs qs al ts) =
            length es * length cs * length qs * length al * length ts \<and>
         mset (map params (functions_make_df_cost es cs qs al ts)) =
            mset (cartesian es cs qs al ts) \<and>
         (distinct es \<and> distinct cs \<and> distinct qs \<and> distinct al \<and> distinct ts \<longrightarrow>
            (\<forall>p \<in> set (cartesian es cs qs al ts).
               count_list (map params (functions_make_df_cost es cs qs al ts)) p = 1))"
proof -
  let ?rows = "df_list e cs qs al t"
  let ?vec = "functions_make_df_cost es cs qs al ts"
  have ret: "make_df_cost e cs qs al t = Inr ?rows"
    using assms by (rule make_df_cost_nonempty)
  have len: "length ?rows = 1 * length cs * length qs * length al * 1"
    by (simp add: length_df_list)
  have ms: "mset (map params ?rows) = mset (cartesian [e] cs qs al [t])"
    by (simp only: map_params_df_list)
  have one: "count_list (map params ?rows) p = 1"
    if "distinct cs \<and> distinct qs \<and> distinct al" "p \<in> set (cartesian [e] cs qs al [t])" for p
    using that by (simp only: map_params_df_list) (simp add: count_distinct distinct_cartesian)
  have vlen: "length ?vec = length es * length cs * length qs * length al * length ts"
    using mset_eq_length [OF mset_combinations, of es cs qs al ts]
    by (simp add: functions_make_df_cost_def length_cartesian)
  have vms: "mset (map params ?vec) = mset (cartesian es cs qs al ts)"
    by (simp only: map_params_functions mset_combinations)
  have vone: "count_list (map params ?vec) p = 1"
    if d: "distinct es \<and> distinct cs \<and> distinct qs \<and> distinct al \<and> distinct ts"
      and p: "p \<in> set (cartesian es cs qs al ts)" for p
  proof -
    have "count_list (map params ?vec) p = count_list (cartesian es cs qs al ts) p"
      using vms by (metis count_mset)
    then show ?thesis using d p by (simp add: count_distinct distinct_cartesian)
  qed
  show ?thesis using ret len ms one vlen vms vone by blast
qed

theorem make_df_cost_row_per_tuple_witness:
  "[50, 100] \<noteq> ([] :: real list) \<and> [50] \<noteq> ([] :: real list) \<and> [100] \<noteq> ([] :: real list) \<and>
   make_df_cost 800 [50, 100] [50] [100] 1 =
     Inr [temp_df 800 50 50 100 1, temp_df 800 100 50 100 1] \<and>
   length (functions_make_df_cost [800, 1000] [50, 100] [50] [100] [1]) = 4 \<and>
   count_list (map params (functions_make_df_cost [800, 1000] [50, 100] [50] [100] [1]))
     (1000, 50, 50, 100, 1) = 1"
  using make_df_cost_row_per_tuple [of "[50, 100]" "[50]" "[100]" 800 1 "[800, 1000]" "[1]"]
  by (simp add: make_df_cost_def df_list_def pd_concat_def cartesian_def)

text \<open>
  C2 as stated fails when a collection repeats a value: with \<open>calls = [50, 50]\<close> both
  variants return two rows with the same parameter values, so that tuple of the product
  appears in two rows.
\<close>

theorem make_df_cost_repeated_value:
  "make_df_cost 800 [50, 50] [50] [100] 1 =
     Inr [\<lparr> employees = 800, calls = 50, avg_words_per_q = 50, avg_words_per_a = 100,
            tokens_per_word = 1, m_tokens_sent = 2, m_tokens_received = 4 \<rparr>,
          \<lparr> employees = 800, calls = 50, avg_words_per_q = 50, avg_words_per_a = 100,
            tokens_per_word = 1, m_tokens_sent = 2, m_tokens_received = 4 \<rparr>] \<and>
   functions_make_df_cost [800] [50, 50] [50] [100] [1] =
     [\<lparr> employees = 800, calls = 50, avg_words_per_q = 50, avg_words_per_a = 100,
        tokens_per_word = 1, m_tokens_sent = 2, m_tokens_received = 4 \<rparr>,
      \<lparr> employees = 800, calls = 50, avg_words_per_q = 50, avg_words_per_a = 100,
        tokens_per_word = 1, m_tokens_sent = 2, m_tokens_received = 4 \<rparr>] \<and>
   count_list (map params (functions_make_df_cost [800] [50, 50] [50] [100] [1]))
     (800, 50, 50, 100, 1) = 2"
  by (simp add: make_df_cost_def df_list_def pd_concat_def temp_df_def
        functions_make_df_cost_def combinations_def params_def)

subsection \<open>Empty input collections\<close>

text \<open>
  C3. An empty input collection is to raise an error, never to give a table without rows.
  The loop variant does raise (\<open>make_df_cost_empty\<close>: \<open>pd.concat\<close> refuses the empty list
  of rows, as its docstring announces). The meshgrid variant has no such failure: for an
  empty \<open>calls\<close>, \<open>employees\<close> or \<open>tokens_per_word\<close> it returns the table with no rows.
\<close>

theorem functions_make_df_cost_empty_calls:
  "functions_make_df_cost [800] [] [50] [100] [1.33] = [] \<and>
   functions_make_df_cost [] [50] [50] [100] [1.33] = [] \<and>
   functions_make_df_cost [800] [50] [50] [100] [] = []"
  by (simp add: functions_make_df_cost_def combinations_def)

subsection \<open>Doubling a parameter\<close>

lemma temp_df_doubling:
  "m_tokens_sent (temp_df e (2 * c) q a t) = 2 * m_tokens_sent (temp_df e c q a t) \<and>
   m_tokens_received (temp_df e (2 * c) q a t) = 2 * m_tokens_received (temp_df e c q a t) \<and>
   m_tokens_sent (temp_df e c q a (2 * t)) = 2 * m_tokens_sent (temp_df e c q a t) \<and>
   m_tokens_received (temp_df e c q a (2 * t)) = 2 * m_tokens_received (temp_df e c q a t)"
  by (simp add: temp_df_def)

lemma derive_tokens_doubling:
  "m_tokens_sent (derive_tokens (2 * e, c, q, a, t)) = 2 * m_tokens_sent (derive_tokens (e, c, q, a, t)) \<and>
   m_tokens_received (derive_tokens (2 * e, c, q, a, t)) = 2 * m_tokens_received (derive_tokens (e, c, q, a, t)) \<and>
   m_tokens_sent (derive_tokens (e, 2 * c, q, a, t)) = 2 * m_tokens_sent (derive_tokens (e, c, q, a, t)) \<and>
   m_tokens_received (derive_tokens (e, 2 * c, q, a, t)) = 2 * m_tokens_received (derive_tokens (e, c, q, a, t)) \<and>
   m_tokens_sent (derive_tokens (e, c, q, a, 2 * t)) = 2 * m_tokens_sent (derive_tokens (e, c, q, a, t)) \<and>
   m_tokens_received (derive_tokens (e, c, q, a, 2 * t)) = 2 * m_tokens_received (derive_tokens (e, c, q, a, t))"
  by simp

text \<open>
  C7. Doubling \<open>employees\<close>, a \<open>calls\<close> value or \<open>tokens_per_word\<close> doubles both token
  volumes of the row. This holds for \<open>calls\<close> and \<open>tokens_per_word\<close> in both variants and
  for \<open>employees\<close> in the meshgrid variant (\<open>temp_df_doubling\<close>,
  \<open>derive_tokens_doubling\<close>). In the loop variant the factor 800 stands where
  \<open>employees\<close> should: with 800 and with 1600 employees the row has the same 2 and 4
  million tokens.
\<close>

theorem make_df_cost_doubling_employees:
  "make_df_cost 800 [50] [50] [100] 1 =
     Inr [\<lparr> employees = 800, calls = 50, avg_words_per_q = 50, avg_words_per_a = 100,
            tokens_per_word = 1, m_tokens_sent = 2, m_tokens_received = 4 \<rparr>] \<and>
   make_df_cost 1600 [50] [50] [100] 1 =
     Inr [\<lparr> employees = 1600, calls = 50, avg_words_per_q = 50, avg_words_per_a = 100,
            tokens_per_word = 1, m_tokens_sent = 2, m_tokens_received = 4 \<rparr>]"
  by (simp add: make_df_cost_def df_list_def pd_concat_def temp_df_def)

subsection \<open>The two variants at 800 employees\<close>

text \<open>
  C9. With 800 employees and the same lists, the two variants are to return the same rows.
  They do not once a product leaves the int64 range: for \<open>10\<^sup>9\<close> calls and questions of
  \<open>10\<^sup>8\<close> words, at one token per word, the loop variant divides the exact product
  \<open>8 \<times> 10\<^sup>1\<^sup>9\<close> and has \<open>8 \<times> 10\<^sup>1\<^sup>3\<close> million tokens sent, while the int64 product of the
  meshgrid variant has wrapped to 6213023705161793536.
\<close>

theorem functions_make_df_cost_int64_wraps:
  "make_df_cost 800 [1000000000] [100000000] [100] 1 =
     Inr [\<lparr> employees = 800, calls = 1000000000, avg_words_per_q = 100000000,
            avg_words_per_a = 100, tokens_per_word = 1,
            m_tokens_sent = 80000000000000, m_tokens_received = 80000000 \<rparr>] \<and>
   800 * 1000000000 * 100000000 * 1 = (80000000000000000000 :: int) \<and>
   tokens_int64 800 1000000000 100000000 1 = 6213023705161793536 \<and>
   tokens_int64 800 1000000000 100 1 = 80000000000000"
  by (simp add: make_df_cost_def df_list_def pd_concat_def temp_df_def tokens_int64_def int64_def)

subsection \<open>Columns, lengths and well-formed tables\<close>

lemma length_filter_zip:
  "length ms = length v \<Longrightarrow>
     length (filter (\<lambda>(k, x). k = m) (zip ms v)) = count_list ms m"
  by (induction ms v rule: list_induct2) auto

lemma loc_modell_length:
  assumes "wf_llm lf" "loc_modell lf m c = Inr r"
  shows "length r = n_matching lf m"
proof -
  obtain ms v where ms: "modell lf = Some ms" and v: "map_of (rate_cols lf) c = Some v"
    and r: "r = map snd (filter (\<lambda>(k, x). k = m) (zip ms v))"
    using assms(2) by (auto simp: loc_modell_def split: option.splits)
  have "(c, v) \<in> set (rate_cols lf)" using v by (rule map_of_SomeD)
  then have "length v = length ms"
    using assms(1) ms by (auto simp: wf_llm_def list_all_iff)
  then show ?thesis
    by (simp add: r n_matching_def ms length_filter_zip)
qed

lemma getitem_length:
  assumes "wf_frame df" "getitem df c = Inr v"
  shows "length v = index_len df"
proof -
  have "map_of (cols df) c = Some v"
    using assms(2) by (simp add: getitem_def split: option.splits)
  then have "(c, v) \<in> set (cols df)" by (rule map_of_SomeD)
  then show ?thesis using assms(1) by (auto simp: wf_frame_def list_all_iff)
qed

lemma list_all_update:
  "list_all P al \<Longrightarrow> P (k, v) \<Longrightarrow> list_all P (AList.update k v al)"
  by (induction al) auto

lemma setitem_wf:
  assumes "wf_frame df" "setitem df c v = Inr df'"
  shows "wf_frame df' \<and> index_len df' = index_len df"
proof -
  have len: "length v = index_len df" and df': "df' = df\<lparr>cols := AList.update c v (cols df)\<rparr>"
    using assms(2) by (auto simp: setitem_def split: if_splits)
  show ?thesis
    using assms(1) len
    by (simp add: df' wf_frame_def distinct_update list_all_update)
qed

lemma set_cost_wf:
  assumes "wf_frame df" "set_cost lf df target tokens_col m rate = Inr df'"
  shows "wf_frame df' \<and> index_len df' = index_len df"
  using assms
  by (auto simp: set_cost_def split: sum.splits dest: setitem_wf)

lemma set_total_wf:
  assumes "wf_frame df" "set_total df m = Inr df'"
  shows "wf_frame df' \<and> index_len df' = index_len df"
  using assms
  by (auto simp: set_total_def split: sum.splits dest: setitem_wf)

lemma np_mul_length:
  "np_mul xs ys = Inr v \<Longrightarrow>
     length v = (if length xs = 1 then length ys else length xs) \<and>
     (length xs = length ys \<or> length xs = 1 \<or> length ys = 1)"
  by (auto simp: np_mul_def split: if_splits)

lemma set_cost_fails:
  assumes wf: "wf_frame df" "wf_llm lf"
    and k: "n_matching lf m \<noteq> 1" "n_matching lf m \<noteq> index_len df"
  shows "\<exists>e. set_cost lf df target tokens_col m rate = Inl e"
proof (rule ccontr)
  assume "\<not> ?thesis"
  then obtain df' where ok: "set_cost lf df target tokens_col m rate = Inr df'"
    by (cases "set_cost lf df target tokens_col m rate") auto
  then obtain toks r v where toks: "getitem df tokens_col = Inr toks"
    and r: "loc_modell lf m rate = Inr r" and v: "np_mul toks r = Inr v"
    and set: "setitem df target v = Inr df'"
    by (auto simp: set_cost_def split: sum.splits)
  have n: "length toks = index_len df" using wf(1) toks by (rule getitem_length)
  have kk: "length r = n_matching lf m" using wf(2) r by (rule loc_modell_length)
  have "length v = index_len df" using set by (auto simp: setitem_def split: if_splits)
  with np_mul_length [OF v] n kk k show False by (auto split: if_splits)
qed

lemma cost_loop_fails:
  assumes "wf_frame df" "wf_llm lf" "m \<in> set models"
    and "n_matching lf m \<noteq> 1" "n_matching lf m \<noteq> index_len df"
  shows "\<exists>e. fst (cost_loop lf cs cr sc rc df models) = Some e"
  using assms
proof (induction models arbitrary: df)
  case Nil
  then show ?case by simp
next
  case (Cons model models)
  show ?case
  proof (cases "set_cost lf df (question_col model) sc model cs")
    case (Inl e)
    then show ?thesis by simp
  next
    case q: (Inr df1)
    have w1: "wf_frame df1" "index_len df1 = index_len df"
      using set_cost_wf [OF Cons.prems(1) q] by simp_all
    show ?thesis
    proof (cases "set_cost lf df1 (answer_col model) rc model cr")
      case (Inl e)
      then show ?thesis using q by simp
    next
      case a: (Inr df2)
      have w2: "wf_frame df2" "index_len df2 = index_len df"
        using set_cost_wf [OF w1(1) a] w1(2) by simp_all
      show ?thesis
      proof (cases "set_total df2 model")
        case (Inl e)
        then show ?thesis using q a by simp
      next
        case t: (Inr df3)
        have w3: "wf_frame df3" "index_len df3 = index_len df"
          using set_total_wf [OF w2(1) t] w2(2) by simp_all
        have "m \<noteq> model"
          using set_cost_fails [OF Cons.prems(1,2,4,5), of "question_col m" sc cs] q by auto
        then have "m \<in> set models" using Cons.prems(3) by simp
        then have "\<exists>e. fst (cost_loop lf cs cr sc rc df3 models) = Some e"
          using Cons.IH [OF w3(1) Cons.prems(2)] Cons.prems(4,5) w3(2) by simp
        then show ?thesis using q a t by simp
      qed
    qed
  qed
qed

lemma np_mul_empty: "np_mul [] ys = Inr v \<Longrightarrow> v = []"
  by (auto simp: np_mul_def split: if_splits)

subsection \<open>One pricing entry per model\<close>

lemma filter_zip_unique:
  "length ms = length v \<Longrightarrow> count_list ms m = 1 \<Longrightarrow> i < length ms \<Longrightarrow> ms ! i = m \<Longrightarrow>
     map snd (filter (\<lambda>(k, x). k = m) (zip ms v)) = [v ! i]"
proof (induction ms v arbitrary: i rule: list_induct2)
  case Nil
  then show ?case by simp
next
  case (Cons k ms x v)
  show ?case
  proof (cases "k = m")
    case True
    then have none: "m \<notin> set ms"
      using Cons.prems(1) by (simp add: count_list_0_iff)
    then have "filter (\<lambda>(k, x). k = m) (zip ms v) = []"
      by (auto simp: filter_empty_conv dest: set_zip_leftD)
    moreover have "i = 0"
      using none Cons.prems(2,3) by (cases i) auto
    ultimately show ?thesis using True by simp
  next
    case False
    then obtain j where j: "i = Suc j"
      using Cons.prems(3) by (cases i) auto
    then show ?thesis
      using False Cons.IH [of j] Cons.prems by simp
  qed
qed

lemma loc_modell_unique:
  assumes "modell lf = Some ms" "map_of (rate_cols lf) c = Some v" "length v = length ms"
    and "count_list ms m = 1" "i < length ms" "ms ! i = m"
  shows "loc_modell lf m c = Inr [v ! i]"
  using assms by (simp add: loc_modell_def filter_zip_unique)

lemma np_mul_single: "np_mul xs [r] = Inr (map (\<lambda>x. x * r) xs)"
proof (cases "length xs = 1")
  case True
  then obtain x where "xs = [x]" by (cases xs) auto
  then show ?thesis by (simp add: np_mul_def)
next
  case False
  then show ?thesis by (simp add: np_mul_def)
qed

lemma set_cost_unique:
  assumes "wf_frame df" "map_of (cols df) tokens_col = Some toks"
    and "loc_modell lf m rate = Inr [r]"
  shows "set_cost lf df target tokens_col m rate =
           Inr (df\<lparr>cols := AList.update target (map (\<lambda>x. x * r) toks) (cols df)\<rparr>)"
proof -
  have g: "getitem df tokens_col = Inr toks" using assms(2) by (simp add: getitem_def)
  have "length toks = index_len df" using assms(1) g by (rule getitem_length)
  then show ?thesis
    by (simp add: set_cost_def g assms(3) np_mul_single setitem_def)
qed

lemma set_total_ok:
  assumes "map_of (cols df) (question_col m) = Some q" "map_of (cols df) (answer_col m) = Some a"
    and "length q = index_len df" "length a = index_len df"
  shows "set_total df m = Inr (df\<lparr>cols := AList.update (total_col m) (map2 (+) q a) (cols df)\<rparr>)"
  using assms by (simp add: set_total_def getitem_def setitem_def)

lemma question_col_inj [simp]: "question_col m = question_col m' \<longleftrightarrow> m = m'"
  by (simp add: question_col_def)

lemma answer_col_inj [simp]: "answer_col m = answer_col m' \<longleftrightarrow> m = m'"
  by (simp add: answer_col_def)

lemma total_col_inj [simp]: "total_col m = total_col m' \<longleftrightarrow> m = m'"
  by (simp add: total_col_def)

lemma col_names_differ [simp]:
  "question_col m \<noteq> answer_col m'" "question_col m \<noteq> total_col m'"
  "answer_col m \<noteq> question_col m'" "answer_col m \<noteq> total_col m'"
  "total_col m \<noteq> question_col m'" "total_col m \<noteq> answer_col m'"
  by (simp_all add: question_col_def answer_col_def total_col_def)

lemma generated_iff:
  "c \<in> set (generated models) \<longleftrightarrow>
     (\<exists>m \<in> set models. c = question_col m \<or> c = answer_col m \<or> c = total_col m)"
  by (auto simp: generated_def)

lemma default_cols_not_generated:
  "''m_tokens_sent'' \<notin> set (generated models)"
  "''m_tokens_received'' \<notin> set (generated models)"
  by (auto simp: generated_iff question_col_def answer_col_def total_col_def)

lemma cost_loop_step:
  assumes wf: "wf_frame df"
    and lf: "modell lf = Some ms" "map_of (rate_cols lf) cs = Some srate"
      "map_of (rate_cols lf) cr = Some rrate" "length srate = length ms" "length rrate = length ms"
    and m: "count_list ms m = 1" "i < length ms" "ms ! i = m"
    and rc: "rc \<noteq> question_col m"
    and toks: "map_of (cols df) sc = Some sent" "map_of (cols df) rc = Some recv"
  defines "Q \<equiv> map (\<lambda>x. x * srate ! i) sent" and "A \<equiv> map (\<lambda>x. x * rrate ! i) recv"
  shows "\<exists>df3. cost_loop lf cs cr sc rc df (m # models) = cost_loop lf cs cr sc rc df3 models \<and>
           wf_frame df3 \<and> index_len df3 = index_len df \<and>
           map_of (cols df3) =
             (map_of (cols df))(question_col m \<mapsto> Q, answer_col m \<mapsto> A,
                total_col m \<mapsto> map2 (+) Q A)"
proof -
  let ?df1 = "df\<lparr>cols := AList.update (question_col m) Q (cols df)\<rparr>"
  let ?df2 = "?df1\<lparr>cols := AList.update (answer_col m) A (cols ?df1)\<rparr>"
  let ?df3 = "?df2\<lparr>cols := AList.update (total_col m) (map2 (+) Q A) (cols ?df2)\<rparr>"
  have s1: "set_cost lf df (question_col m) sc m cs = Inr ?df1"
    unfolding Q_def
    by (rule set_cost_unique [OF wf toks(1) loc_modell_unique [OF lf(1,2,4) m]])
  have w1: "wf_frame ?df1" using set_cost_wf [OF wf s1] by simp
  have r1: "map_of (cols ?df1) rc = Some recv"
    using rc toks(2) by (simp add: update_conv')
  have s2: "set_cost lf ?df1 (answer_col m) rc m cr = Inr ?df2"
    unfolding A_def
    by (rule set_cost_unique [OF w1 r1 loc_modell_unique [OF lf(1,3,5) m]])
  have w2: "wf_frame ?df2" using set_cost_wf [OF w1 s2] by simp
  have "getitem df sc = Inr sent" "getitem df rc = Inr recv"
    using toks by (simp_all add: getitem_def)
  then have lq: "length Q = index_len df" and la: "length A = index_len df"
    using getitem_length [OF wf] by (simp_all add: Q_def A_def)
  have s3: "set_total ?df2 m = Inr ?df3"
    by (rule set_total_ok) (simp_all add: update_conv' lq la)
  have w3: "wf_frame ?df3" using set_total_wf [OF w2 s3] by simp
  have "cost_loop lf cs cr sc rc df (m # models) = cost_loop lf cs cr sc rc ?df3 models"
    by (simp only: cost_loop.simps s1 s2 s3 sum.case)
  moreover have "map_of (cols ?df3) =
      (map_of (cols df))(question_col m \<mapsto> Q, answer_col m \<mapsto> A, total_col m \<mapsto> map2 (+) Q A)"
    by (simp add: update_conv')
  ultimately show ?thesis using w3 by (intro exI [of _ ?df3]) simp
qed

lemma cost_loop_unique:
  assumes wf: "wf_frame df"
    and lf: "modell lf = Some ms" "map_of (rate_cols lf) cs = Some srate"
      "map_of (rate_cols lf) cr = Some rrate" "length srate = length ms" "length rrate = length ms"
    and uniq: "\<forall>m \<in> set models. count_list ms m = 1"
    and names: "sc \<notin> set (generated models)" "rc \<notin> set (generated models)"
    and toks: "map_of (cols df) sc = Some sent" "map_of (cols df) rc = Some recv"
  shows "\<exists>df'. cost_loop lf cs cr sc rc df models = (None, df') \<and>
           wf_frame df' \<and> index_len df' = index_len df \<and>
           (\<forall>c. c \<notin> set (generated models) \<longrightarrow> map_of (cols df') c = map_of (cols df) c) \<and>
           (\<forall>m \<in> set models. \<forall>i < length ms. ms ! i = m \<longrightarrow>
              map_of (cols df') (question_col m) = Some (map (\<lambda>x. x * srate ! i) sent) \<and>
              map_of (cols df') (answer_col m) = Some (map (\<lambda>x. x * rrate ! i) recv) \<and>
              map_of (cols df') (total_col m) =
                Some (map2 (+) (map (\<lambda>x. x * srate ! i) sent) (map (\<lambda>x. x * rrate ! i) recv)))"
  using wf uniq names toks
proof (induction models arbitrary: df)
  case Nil
  then show ?case by simp
next
  case (Cons m models)
  have m1: "count_list ms m = 1" using Cons.prems(2) by simp
  then have "m \<in> set ms" by (metis count_list_0_iff zero_neq_one)
  then obtain i0 where i0: "i0 < length ms" "ms ! i0 = m" by (auto simp: in_set_conv_nth)
  have sc: "sc \<noteq> question_col m" "sc \<noteq> answer_col m" "sc \<noteq> total_col m"
    and rc: "rc \<noteq> question_col m" "rc \<noteq> answer_col m" "rc \<noteq> total_col m"
    using Cons.prems(3,4) by (auto simp: generated_iff)
  have rest: "sc \<notin> set (generated models)" "rc \<notin> set (generated models)"
    using Cons.prems(3,4) by (auto simp: generated_iff)
  have step: "\<exists>df3. cost_loop lf cs cr sc rc df (m # models) = cost_loop lf cs cr sc rc df3 models \<and>
      wf_frame df3 \<and> index_len df3 = index_len df \<and>
      map_of (cols df3) = (map_of (cols df))(question_col m \<mapsto> map (\<lambda>x. x * srate ! i) sent,
         answer_col m \<mapsto> map (\<lambda>x. x * rrate ! i) recv,
         total_col m \<mapsto> map2 (+) (map (\<lambda>x. x * srate ! i) sent) (map (\<lambda>x. x * rrate ! i) recv))"
    if "i < length ms" "ms ! i = m" for i
    by (rule cost_loop_step [OF Cons.prems(1) lf m1 that rc(1) Cons.prems(5,6)])
  from step [OF i0] obtain df3 where
    run: "cost_loop lf cs cr sc rc df (m # models) = cost_loop lf cs cr sc rc df3 models"
    and w3: "wf_frame df3" and n3: "index_len df3 = index_len df"
    and c3: "map_of (cols df3) = (map_of (cols df))(question_col m \<mapsto> map (\<lambda>x. x * srate ! i0) sent,
         answer_col m \<mapsto> map (\<lambda>x. x * rrate ! i0) recv,
         total_col m \<mapsto> map2 (+) (map (\<lambda>x. x * srate ! i0) sent) (map (\<lambda>x. x * rrate ! i0) recv))"
    by blast
  have same: "srate ! i = srate ! i0 \<and> rrate ! i = rrate ! i0" if "i < length ms" "ms ! i = m" for i
    using loc_modell_unique [OF lf(1,2,4) m1 that] loc_modell_unique [OF lf(1,2,4) m1 i0]
      loc_modell_unique [OF lf(1,3,5) m1 that] loc_modell_unique [OF lf(1,3,5) m1 i0]
    by simp
  have t3: "map_of (cols df3) sc = Some sent" "map_of (cols df3) rc = Some recv"
    using sc rc Cons.prems(5,6) by (simp_all add: c3)
  have u: "\<forall>m \<in> set models. count_list ms m = 1" using Cons.prems(2) by simp
  from Cons.IH [OF w3 u rest t3] obtain df' where
    fin: "cost_loop lf cs cr sc rc df3 models = (None, df')"
    and w': "wf_frame df'" and n': "index_len df' = index_len df3"
    and keep: "\<forall>c. c \<notin> set (generated models) \<longrightarrow> map_of (cols df') c = map_of (cols df3) c"
    and vals: "\<forall>m \<in> set models. \<forall>i < length ms. ms ! i = m \<longrightarrow>
        map_of (cols df') (question_col m) = Some (map (\<lambda>x. x * srate ! i) sent) \<and>
        map_of (cols df') (answer_col m) = Some (map (\<lambda>x. x * rrate ! i) recv) \<and>
        map_of (cols df') (total_col m) =
          Some (map2 (+) (map (\<lambda>x. x * srate ! i) sent) (map (\<lambda>x. x * rrate ! i) recv))"
    by blast
  have keep': "map_of (cols df') c = map_of (cols df) c" if "c \<notin> set (generated (m # models))" for c
  proof -
    have "c \<notin> set (generated models)" "c \<noteq> question_col m" "c \<noteq> answer_col m" "c \<noteq> total_col m"
      using that by (auto simp: generated_iff)
    then show ?thesis using keep by (simp add: c3)
  qed
  have here: "map_of (cols df') (question_col m) = Some (map (\<lambda>x. x * srate ! i) sent) \<and>
        map_of (cols df') (answer_col m) = Some (map (\<lambda>x. x * rrate ! i) recv) \<and>
        map_of (cols df') (total_col m) =
          Some (map2 (+) (map (\<lambda>x. x * srate ! i) sent) (map (\<lambda>x. x * rrate ! i) recv))"
    if i: "i < length ms" "ms ! i = m" for i
  proof (cases "m \<in> set models")
    case True
    then show ?thesis using vals i by blast
  next
    case False
    then have "question_col m \<notin> set (generated models)" "answer_col m \<notin> set (generated models)"
      "total_col m \<notin> set (generated models)"
      by (auto simp: generated_iff)
    then show ?thesis using keep same [OF i] by (simp add: c3)
  qed
  have vals': "\<forall>m' \<in> set (m # models). \<forall>i < length ms. ms ! i = m' \<longrightarrow>
        map_of (cols df') (question_col m') = Some (map (\<lambda>x. x * srate ! i) sent) \<and>
        map_of (cols df') (answer_col m') = Some (map (\<lambda>x. x * rrate ! i) recv) \<and>
        map_of (cols df') (total_col m') =
          Some (map2 (+) (map (\<lambda>x. x * srate ! i) sent) (map (\<lambda>x. x * rrate ! i) recv))"
    using here vals by auto
  show ?case
    using run fin w' n' n3 keep' vals' by (intro exI [of _ df']) (simp only: simp_thms, blast)
qed

subsection \<open>The call on the store\<close>

lemma calculate_total_cost_run:
  assumes "cost_loop (llms h ! b) cs cr sc rc (frames h ! a) models = (exc, df)"
  shows "calculate_total_cost h a b models cs cr sc rc =
           ((case exc of Some e \<Rightarrow> Inl e | None \<Rightarrow> Inr (length (frames h))),
            h\<lparr>frames := frames h @ [df], llms := llms h @ [llms h ! b]\<rparr>)"
  using assms
  by (simp add: calculate_total_cost_def copy_frame_def copy_llm_def split: option.splits)

lemmas run_defs = calculate_total_cost_def copy_frame_def copy_llm_def set_cost_def set_total_def
  getitem_def setitem_def loc_modell_def np_mul_def question_col_def answer_col_def total_col_def

text \<open>
  C6. The call leaves every table of the caller's store as it was, the two argument
  tables among them, also when it raises; the table it returns is a new object, at an
  address the caller's store did not have.
\<close>

theorem calculate_total_cost_keeps_inputs:
  assumes "a < length (frames h)" "b < length (llms h)"
  shows "(\<forall>i < length (frames h).
            frames (snd (calculate_total_cost h a b models cs cr sc rc)) ! i = frames h ! i) \<and>
         (\<forall>j < length (llms h).
            llms (snd (calculate_total_cost h a b models cs cr sc rc)) ! j = llms h ! j) \<and>
         (\<forall>r. fst (calculate_total_cost h a b models cs cr sc rc) = Inr r \<longrightarrow>
            length (frames h) \<le> r \<and> r \<noteq> a \<and>
            r < length (frames (snd (calculate_total_cost h a b models cs cr sc rc))))"
proof -
  obtain exc df where "cost_loop (llms h ! b) cs cr sc rc (frames h ! a) models = (exc, df)"
    by (cases "cost_loop (llms h ! b) cs cr sc rc (frames h ! a) models")
  from calculate_total_cost_run [OF this] assms show ?thesis
    by (auto simp: nth_append split: option.splits)
qed

theorem calculate_total_cost_keeps_inputs_witness:
  "(0::nat) < length (frames example_heap) \<and> (0::nat) < length (llms example_heap) \<and>
   frames (snd (calculate_total_cost example_heap 0 0 [''A''] ''cost_sent'' ''cost_rec''
      ''m_tokens_sent'' ''m_tokens_received'')) ! 0 = frames example_heap ! 0 \<and>
   llms (snd (calculate_total_cost example_heap 0 0 [''A''] ''cost_sent'' ''cost_rec''
      ''m_tokens_sent'' ''m_tokens_received'')) ! 0 = llms example_heap ! 0 \<and>
   fst (calculate_total_cost example_heap 0 0 [''A''] ''cost_sent'' ''cost_rec''
      ''m_tokens_sent'' ''m_tokens_received'') = Inr 1"
proof -
  have h: "(0::nat) < length (frames example_heap)" "(0::nat) < length (llms example_heap)"
    by (simp_all add: example_heap_def)
  have r: "fst (calculate_total_cost example_heap 0 0 [''A''] ''cost_sent'' ''cost_rec''
      ''m_tokens_sent'' ''m_tokens_received'') = Inr 1"
    by (simp add: example_heap_def pricing_A_def run_defs)
  show ?thesis
    using h r calculate_total_cost_keeps_inputs [OF h, of "[''A'']" "''cost_sent''" "''cost_rec''"
        "''m_tokens_sent''" "''m_tokens_received''"]
    by simp
qed

subsection \<open>Identifiers without a single pricing entry\<close>

text \<open>
  C4 (as amended). On well-formed tables, a call fails with an error and returns no table
  whenever some requested identifier has a number of pricing entries that is neither one
  nor the number of rows of the scenario table: in particular when it has no entry and the
  scenario table has a row. The error is the \<open>ValueError\<close> of the arrays that do not fit, or
  a \<open>KeyError\<close> when a column is missing.
\<close>

theorem calculate_total_cost_unmatched_fails:
  assumes "wf_frame (frames h ! a)" "wf_llm (llms h ! b)" "m \<in> set models"
    and "n_matching (llms h ! b) m \<noteq> 1"
    and "n_matching (llms h ! b) m \<noteq> index_len (frames h ! a)"
  shows "\<exists>e. fst (calculate_total_cost h a b models cs cr sc rc) = Inl e"
proof -
  obtain exc df where run: "cost_loop (llms h ! b) cs cr sc rc (frames h ! a) models = (exc, df)"
    by (cases "cost_loop (llms h ! b) cs cr sc rc (frames h ! a) models")
  obtain e where "exc = Some e"
    using cost_loop_fails [OF assms, of cs cr sc rc] run by auto
  then show ?thesis
    using calculate_total_cost_run [OF run] by simp
qed

theorem calculate_total_cost_unmatched_fails_witness:
  "wf_frame (frames example_heap ! 0) \<and> wf_llm (llms example_heap ! 0) \<and>
   ''B'' \<in> set [''A'', ''B''] \<and> n_matching (llms example_heap ! 0) ''B'' = 0 \<and>
   index_len (frames example_heap ! 0) = 1 \<and>
   (\<exists>e. fst (calculate_total_cost example_heap 0 0 [''A'', ''B''] ''cost_sent'' ''cost_rec''
      ''m_tokens_sent'' ''m_tokens_received'') = Inl e)"
proof -
  have h: "wf_frame (frames example_heap ! 0)" "wf_llm (llms example_heap ! 0)"
    "''B'' \<in> set [''A'', ''B'']"
    by (simp_all add: example_heap_def pricing_A_def wf_frame_def wf_llm_def)
  have k: "n_matching (llms example_heap ! 0) ''B'' = 0" "index_len (frames example_heap ! 0) = 1"
    by (simp_all add: example_heap_def pricing_A_def n_matching_def)
  show ?thesis
    using h k calculate_total_cost_unmatched_fails [OF h, of "''cost_sent''" "''cost_rec''"
        "''m_tokens_sent''" "''m_tokens_received''"]
    by simp
qed

text \<open>
  C4 as stated fails for an identifier with more than one entry when the entries are as
  many as the rows: with two entries for \<open>A\<close> and two rows the call returns a table, each
  row priced with the entry at its own position.
\<close>

theorem calculate_total_cost_duplicate_entries:
  "n_matching (llms duplicate_heap ! 0) ''A'' = 2 \<and>
   fst (calculate_total_cost duplicate_heap 0 0 [''A''] ''cost_sent'' ''cost_rec''
      ''m_tokens_sent'' ''m_tokens_received'') = Inr 1 \<and>
   cols (frames (snd (calculate_total_cost duplicate_heap 0 0 [''A''] ''cost_sent'' ''cost_rec''
      ''m_tokens_sent'' ''m_tokens_received'')) ! 1) =
     [(''m_tokens_sent'', [1, 2]), (''m_tokens_received'', [3, 4]),
      (''Question cost A (USD)'', [0.01, 0.04]), (''Answer cost A (USD)'', [0.045, 0.1]),
      (''Total cost A (USD)'', [0.055, 0.14])]"
  by (simp add: duplicate_heap_def n_matching_def run_defs)

subsection \<open>Labels keep their places\<close>

lemma setitem_labels:
  "setitem df c v = Inr df' \<Longrightarrow> \<exists>rest. map fst (cols df') = map fst (cols df) @ rest"
  by (auto simp: setitem_def update_keys split: if_splits)

lemma set_cost_labels:
  "set_cost lf df target tokens_col m rate = Inr df' \<Longrightarrow>
     \<exists>rest. map fst (cols df') = map fst (cols df) @ rest"
  by (auto simp: set_cost_def split: sum.splits dest: setitem_labels)

lemma set_total_labels:
  "set_total df m = Inr df' \<Longrightarrow> \<exists>rest. map fst (cols df') = map fst (cols df) @ rest"
  by (auto simp: set_total_def split: sum.splits dest: setitem_labels)

lemma cost_loop_labels:
  "\<exists>rest. map fst (cols (snd (cost_loop lf cs cr sc rc df models))) = map fst (cols df) @ rest"
proof (induction models arbitrary: df)
  case Nil
  then show ?case by simp
next
  case (Cons m models)
  show ?case
  proof (cases "set_cost lf df (question_col m) sc m cs")
    case (Inl e)
    then show ?thesis by simp
  next
    case q: (Inr df1)
    from set_cost_labels [OF q] obtain r1 where
      r1: "map fst (cols df1) = map fst (cols df) @ r1" by blast
    show ?thesis
    proof (cases "set_cost lf df1 (answer_col m) rc m cr")
      case (Inl e)
      then show ?thesis using q r1 by simp
    next
      case a: (Inr df2)
      from set_cost_labels [OF a] obtain r2 where
        r2: "map fst (cols df2) = map fst (cols df1) @ r2" by blast
      show ?thesis
      proof (cases "set_total df2 m")
        case (Inl e)
        then show ?thesis using q a r1 r2 by simp
      next
        case t: (Inr df3)
        from set_total_labels [OF t] obtain r3 where
          r3: "map fst (cols df3) = map fst (cols df2) @ r3" by blast
        from Cons.IH [of df3] obtain r4 where
          "map fst (cols (snd (cost_loop lf cs cr sc rc df3 models))) = map fst (cols df3) @ r4"
          by blast
        then show ?thesis using q a t r1 r2 r3 by simp
      qed
    qed
  qed
qed

lemma column_at:
  assumes "distinct (map fst al)" "map_of al c = Some v" "k < length al" "fst (al ! k) = c"
  shows "al ! k = (c, v)"
proof -
  have "al ! k \<in> set al" using assms(3) by simp
  then have "map_of al (fst (al ! k)) = Some (snd (al ! k))"
    using assms(1) by (simp add: map_of_eq_Some_iff)
  then show ?thesis using assms(2,4) by (cases "al ! k") simp
qed

subsection \<open>The cost columns\<close>

text \<open>
  C5 (as amended). For a well-formed scenario table with the two token columns, neither of
  them labelled like a cost column of a requested model (the default labels never are:
  \<open>default_cols_not_generated\<close>), and a pricing table with the two rate columns and exactly
  one entry for every requested identifier, the call returns a table where, for every
  requested model and in every row, the question cost is the sent tokens times the model's
  sent rate, the answer cost the received tokens times its received rate, and the total
  cost their sum.
\<close>

theorem calculate_total_cost_costs:
  assumes "wf_frame (frames h ! a)"
    and "map_of (cols (frames h ! a)) sc = Some sent"
    and "map_of (cols (frames h ! a)) rc = Some recv"
    and "sc \<notin> set (generated models)" "rc \<notin> set (generated models)"
    and "modell (llms h ! b) = Some ms"
    and "map_of (rate_cols (llms h ! b)) cs = Some srate" "length srate = length ms"
    and "map_of (rate_cols (llms h ! b)) cr = Some rrate" "length rrate = length ms"
    and "\<forall>m \<in> set models. count_list ms m = 1"
  shows "\<exists>r. fst (calculate_total_cost h a b models cs cr sc rc) = Inr r \<and>
           (\<forall>m \<in> set models. \<forall>i < length ms. ms ! i = m \<longrightarrow>
              map_of (cols (frames (snd (calculate_total_cost h a b models cs cr sc rc)) ! r))
                  (question_col m) = Some (map (\<lambda>x. x * srate ! i) sent) \<and>
              map_of (cols (frames (snd (calculate_total_cost h a b models cs cr sc rc)) ! r))
                  (answer_col m) = Some (map (\<lambda>x. x * rrate ! i) recv) \<and>
              map_of (cols (frames (snd (calculate_total_cost h a b models cs cr sc rc)) ! r))
                  (total_col m) =
                Some (map2 (+) (map (\<lambda>x. x * srate ! i) sent) (map (\<lambda>x. x * rrate ! i) recv)))"
proof -
  from cost_loop_unique [OF assms(1,6,7,9,8,10,11,4,5,2,3)]
  obtain df' where run: "cost_loop (llms h ! b) cs cr sc rc (frames h ! a) models = (None, df')"
    and vals: "\<forall>m \<in> set models. \<forall>i < length ms. ms ! i = m \<longrightarrow>
       map_of (cols df') (question_col m) = Some (map (\<lambda>x. x * srate ! i) sent) \<and>
       map_of (cols df') (answer_col m) = Some (map (\<lambda>x. x * rrate ! i) recv) \<and>
       map_of (cols df') (total_col m) =
         Some (map2 (+) (map (\<lambda>x. x * srate ! i) sent) (map (\<lambda>x. x * rrate ! i) recv))"
    by blast
  show ?thesis
    using vals by (simp add: calculate_total_cost_run [OF run])
qed

theorem calculate_total_cost_costs_witness:
  "fst (calculate_total_cost dyadic_heap 0 0 [''A''] ''cost_sent'' ''cost_rec''
      ''m_tokens_sent'' ''m_tokens_received'') = Inr 1 \<and>
   map_of (cols (frames (snd (calculate_total_cost dyadic_heap 0 0 [''A''] ''cost_sent'' ''cost_rec''
      ''m_tokens_sent'' ''m_tokens_received'')) ! 1)) (question_col ''A'') = Some [1] \<and>
   map_of (cols (frames (snd (calculate_total_cost dyadic_heap 0 0 [''A''] ''cost_sent'' ''cost_rec''
      ''m_tokens_sent'' ''m_tokens_received'')) ! 1)) (answer_col ''A'') = Some [1] \<and>
   map_of (cols (frames (snd (calculate_total_cost dyadic_heap 0 0 [''A''] ''cost_sent'' ''cost_rec''
      ''m_tokens_sent'' ''m_tokens_received'')) ! 1)) (total_col ''A'') = Some [2]"
proof -
  have h: "wf_frame (frames dyadic_heap ! 0)"
    "map_of (cols (frames dyadic_heap ! 0)) ''m_tokens_sent'' = Some [2]"
    "map_of (cols (frames dyadic_heap ! 0)) ''m_tokens_received'' = Some [4]"
    "''m_tokens_sent'' \<notin> set (generated [''A''])"
    "''m_tokens_received'' \<notin> set (generated [''A''])"
    "modell (llms dyadic_heap ! 0) = Some [''A'']"
    "map_of (rate_cols (llms dyadic_heap ! 0)) ''cost_sent'' = Some [0.5]"
    "length [0.5 :: real] = length [''A'']"
    "map_of (rate_cols (llms dyadic_heap ! 0)) ''cost_rec'' = Some [0.25]"
    "length [0.25 :: real] = length [''A'']"
    "\<forall>m \<in> set [''A'']. count_list [''A''] m = 1"
    by (simp_all add: dyadic_heap_def pricing_half_def wf_frame_def generated_def
        question_col_def answer_col_def total_col_def)
  from calculate_total_cost_costs [OF h] obtain r where
    r: "fst (calculate_total_cost dyadic_heap 0 0 [''A''] ''cost_sent'' ''cost_rec''
      ''m_tokens_sent'' ''m_tokens_received'') = Inr r"
    and v: "\<forall>m \<in> set [''A'']. \<forall>i < length [''A'']. [''A''] ! i = m \<longrightarrow>
      map_of (cols (frames (snd (calculate_total_cost dyadic_heap 0 0 [''A''] ''cost_sent'' ''cost_rec''
      ''m_tokens_sent'' ''m_tokens_received'')) ! r)) (question_col m) =
        Some (map (\<lambda>x. x * [0.5] ! i) [2]) \<and>
      map_of (cols (frames (snd (calculate_total_cost dyadic_heap 0 0 [''A''] ''cost_sent'' ''cost_rec''
      ''m_tokens_sent'' ''m_tokens_received'')) ! r)) (answer_col m) =
        Some (map (\<lambda>x. x * [0.25] ! i) [4]) \<and>
      map_of (cols (frames (snd (calculate_total_cost dyadic_heap 0 0 [''A''] ''cost_sent'' ''cost_rec''
      ''m_tokens_sent'' ''m_tokens_received'')) ! r)) (total_col m) =
        Some (map2 (+) (map (\<lambda>x. x * [0.5] ! i) [2]) (map (\<lambda>x. x * [0.25] ! i) [4]))"
    by blast
  have r1: "r = 1"
    using r by (simp add: dyadic_heap_def pricing_half_def run_defs)
  from v have "map_of (cols (frames (snd (calculate_total_cost dyadic_heap 0 0 [''A''] ''cost_sent'' ''cost_rec''
      ''m_tokens_sent'' ''m_tokens_received'')) ! r)) (question_col ''A'') =
        Some (map (\<lambda>x. x * [0.5] ! 0) [2]) \<and>
      map_of (cols (frames (snd (calculate_total_cost dyadic_heap 0 0 [''A''] ''cost_sent'' ''cost_rec''
      ''m_tokens_sent'' ''m_tokens_received'')) ! r)) (answer_col ''A'') =
        Some (map (\<lambda>x. x * [0.25] ! 0) [4]) \<and>
      map_of (cols (frames (snd (calculate_total_cost dyadic_heap 0 0 [''A''] ''cost_sent'' ''cost_rec''
      ''m_tokens_sent'' ''m_tokens_received'')) ! r)) (total_col ''A'') =
        Some (map2 (+) (map (\<lambda>x. x * [0.5] ! 0) [2]) (map (\<lambda>x. x * [0.25] ! 0) [4]))"
    by simp
  then show ?thesis using r unfolding r1 by simp
qed

text \<open>
  C5 as stated fails when a token column has the label of a cost column. Here the
  received tokens, 3 million, stand in the column labelled \<open>Question cost A (USD)\<close>; every
  condition of the claim holds (both token columns are there, \<open>A\<close> has one entry). The
  first statement of the loop body overwrites that column with the question cost 1, the
  second reads it back, and the answer cost is 1 times 0.25, not 3 times 0.25.
\<close>

theorem calculate_total_cost_received_overwritten:
  "map_of (cols (frames relabelled_heap ! 0)) ''m_tokens_sent'' = Some [2] \<and>
   map_of (cols (frames relabelled_heap ! 0)) ''Question cost A (USD)'' = Some [3] \<and>
   n_matching (llms relabelled_heap ! 0) ''A'' = 1 \<and>
   fst (calculate_total_cost relabelled_heap 0 0 [''A''] ''cost_sent'' ''cost_rec''
      ''m_tokens_sent'' ''Question cost A (USD)'') = Inr 1 \<and>
   cols (frames (snd (calculate_total_cost relabelled_heap 0 0 [''A''] ''cost_sent'' ''cost_rec''
      ''m_tokens_sent'' ''Question cost A (USD)'')) ! 1) =
     [(''m_tokens_sent'', [2]), (''Question cost A (USD)'', [1]),
      (''Answer cost A (USD)'', [0.25]), (''Total cost A (USD)'', [1.25])] \<and>
   [0.25] \<noteq> [3 * (0.25 :: real)]"
  by (simp add: relabelled_heap_def pricing_half_def n_matching_def run_defs)

subsection \<open>A cost column that already exists\<close>

text \<open>
  C8 (as amended). A column of the scenario table that already has the label of a cost
  column of a requested model does not make the call fail: under the conditions of C5 the
  call returns a well-formed table (the label occurs once) in which the column at that
  position still has that label and holds the newly computed cost in place of its former
  values.
\<close>

theorem calculate_total_cost_overwrites:
  assumes "wf_frame (frames h ! a)"
    and "map_of (cols (frames h ! a)) sc = Some sent"
    and "map_of (cols (frames h ! a)) rc = Some recv"
    and "sc \<notin> set (generated models)" "rc \<notin> set (generated models)"
    and "modell (llms h ! b) = Some ms"
    and "map_of (rate_cols (llms h ! b)) cs = Some srate" "length srate = length ms"
    and "map_of (rate_cols (llms h ! b)) cr = Some rrate" "length rrate = length ms"
    and "\<forall>m \<in> set models. count_list ms m = 1"
    and "m \<in> set models" "i < length ms" "ms ! i = m"
    and "c \<in> {question_col m, answer_col m, total_col m}"
    and "k < length (cols (frames h ! a))" "fst (cols (frames h ! a) ! k) = c"
  shows "\<exists>r. fst (calculate_total_cost h a b models cs cr sc rc) = Inr r \<and>
           wf_frame (frames (snd (calculate_total_cost h a b models cs cr sc rc)) ! r) \<and>
           k < length (cols (frames (snd (calculate_total_cost h a b models cs cr sc rc)) ! r)) \<and>
           cols (frames (snd (calculate_total_cost h a b models cs cr sc rc)) ! r) ! k =
             (c, if c = question_col m then map (\<lambda>x. x * srate ! i) sent
                 else if c = answer_col m then map (\<lambda>x. x * rrate ! i) recv
                 else map2 (+) (map (\<lambda>x. x * srate ! i) sent)
                        (map (\<lambda>x. x * rrate ! i) recv))"
proof -
  let ?new = "if c = question_col m then map (\<lambda>x. x * srate ! i) sent
     else if c = answer_col m then map (\<lambda>x. x * rrate ! i) recv
     else map2 (+) (map (\<lambda>x. x * srate ! i) sent) (map (\<lambda>x. x * rrate ! i) recv)"
  from cost_loop_unique [OF assms(1,6,7,9,8,10,11,4,5,2,3)]
  obtain df' where run: "cost_loop (llms h ! b) cs cr sc rc (frames h ! a) models = (None, df')"
    and wf: "wf_frame df'"
    and vals: "\<forall>m \<in> set models. \<forall>i < length ms. ms ! i = m \<longrightarrow>
       map_of (cols df') (question_col m) = Some (map (\<lambda>x. x * srate ! i) sent) \<and>
       map_of (cols df') (answer_col m) = Some (map (\<lambda>x. x * rrate ! i) recv) \<and>
       map_of (cols df') (total_col m) =
         Some (map2 (+) (map (\<lambda>x. x * srate ! i) sent) (map (\<lambda>x. x * rrate ! i) recv))"
    by blast
  have "map_of (cols df') (question_col m) = Some (map (\<lambda>x. x * srate ! i) sent) \<and>
       map_of (cols df') (answer_col m) = Some (map (\<lambda>x. x * rrate ! i) recv) \<and>
       map_of (cols df') (total_col m) =
         Some (map2 (+) (map (\<lambda>x. x * srate ! i) sent) (map (\<lambda>x. x * rrate ! i) recv))"
    using vals assms(12,13,14) by blast
  then have new: "map_of (cols df') c = Some ?new"
    using assms(15) by auto
  from cost_loop_labels [of "llms h ! b" cs cr sc rc "frames h ! a" models] obtain rest where
    "map fst (cols df') = map fst (cols (frames h ! a)) @ rest"
    by (auto simp: run)
  then have "length (cols df') = length (cols (frames h ! a)) + length rest"
    and "map fst (cols df') ! k = map fst (cols (frames h ! a)) ! k"
    using assms(16) by (metis length_append length_map, simp add: nth_append)
  then have k: "k < length (cols df')" and lab: "fst (cols df' ! k) = c"
    using assms(16,17) by simp_all
  have "distinct (map fst (cols df'))" using wf by (simp add: wf_frame_def)
  then have "cols df' ! k = (c, ?new)"
    using new k lab by (rule column_at)
  then show ?thesis
    using wf k by (simp add: calculate_total_cost_run [OF run])
qed

theorem calculate_total_cost_overwrites_witness:
  "cols (frames collision_heap ! 0) ! 2 = (total_col ''A'', [99]) \<and>
   (\<exists>r. fst (calculate_total_cost collision_heap 0 0 [''A''] ''cost_sent'' ''cost_rec''
        ''m_tokens_sent'' ''m_tokens_received'') = Inr r \<and>
      cols (frames (snd (calculate_total_cost collision_heap 0 0 [''A''] ''cost_sent''
        ''cost_rec'' ''m_tokens_sent'' ''m_tokens_received'')) ! r) ! 2 =
        (total_col ''A'', [2]))"
proof -
  have h: "wf_frame (frames collision_heap ! 0)"
    "map_of (cols (frames collision_heap ! 0)) ''m_tokens_sent'' = Some [2]"
    "map_of (cols (frames collision_heap ! 0)) ''m_tokens_received'' = Some [4]"
    "''m_tokens_sent'' \<notin> set (generated [''A''])"
    "''m_tokens_received'' \<notin> set (generated [''A''])"
    "modell (llms collision_heap ! 0) = Some [''A'']"
    "map_of (rate_cols (llms collision_heap ! 0)) ''cost_sent'' = Some [0.5]"
    "length [0.5 :: real] = length [''A'']"
    "map_of (rate_cols (llms collision_heap ! 0)) ''cost_rec'' = Some [0.25]"
    "length [0.25 :: real] = length [''A'']"
    "\<forall>m \<in> set [''A'']. count_list [''A''] m = 1"
    "''A'' \<in> set [''A'']" "0 < length [''A'']" "[''A''] ! 0 = ''A''"
    "total_col ''A'' \<in> {question_col ''A'', answer_col ''A'', total_col ''A''}"
    "2 < length (cols (frames collision_heap ! 0))"
    "fst (cols (frames collision_heap ! 0) ! 2) = total_col ''A''"
    by (simp_all add: collision_heap_def pricing_half_def wf_frame_def generated_def
        question_col_def answer_col_def total_col_def)
  have old: "cols (frames collision_heap ! 0) ! 2 = (total_col ''A'', [99])"
    by (simp add: collision_heap_def total_col_def)
  show ?thesis
    using old calculate_total_cost_overwrites [OF h]
    by (auto simp: question_col_def answer_col_def total_col_def)
qed

text \<open>
  C8 as stated fails: a table with a column \<open>Total cost A (USD)\<close> of value 99 is accepted,
  and the returned table has the total cost 2 in that column, which keeps its position.
\<close>

theorem calculate_total_cost_collision:
  "map_of (cols (frames collision_heap ! 0)) ''Total cost A (USD)'' = Some [99] \<and>
   total_col ''A'' = ''Total cost A (USD)'' \<and>
   fst (calculate_total_cost collision_heap 0 0 [''A''] ''cost_sent'' ''cost_rec''
      ''m_tokens_sent'' ''m_tokens_received'') = Inr 1 \<and>
   cols (frames (snd (calculate_total_cost collision_heap 0 0 [''A''] ''cost_sent'' ''cost_rec''
      ''m_tokens_sent'' ''m_tokens_received'')) ! 1) =
     [(''m_tokens_sent'', [2]), (''m_tokens_received'', [4]),
      (''Total cost A (USD)'', [2]),
      (''Question cost A (USD)'', [1]), (''Answer cost A (USD)'', [1])]"
  by (simp add: collision_heap_def pricing_half_def run_defs)

end
